theory Spec2Isabelle
  imports Main "HOL-Library.Word"
begin

section \<open>Strings of the host language\<close>

text \<open>
  A JavaScript string is a sequence of UTF-16 code units. \<open>js\<close> embeds an ASCII
  literal, which is how the messages of the source are written down here.
\<close>

type_synonym js_string = "16 word list"

definition js :: "string \<Rightarrow> js_string" where
  "js cs = map of_char cs"

text \<open>
  \<open>String.prototype.trim\<close> removes white space and line terminators from both ends:
  TAB, LF, VT, FF, CR, SP, NBSP, the other space separators of Unicode, LS, PS and
  the byte order mark. All of them are single code units.
\<close>

definition isWhiteSpace :: "16 word \<Rightarrow> bool" where
  "isWhiteSpace u =
     (u = 0x0009 \<or> u = 0x000A \<or> u = 0x000B \<or> u = 0x000C \<or> u = 0x000D \<or>
      u = 0x0020 \<or> u = 0x00A0 \<or> u = 0x1680 \<or> (0x2000 \<le> u \<and> u \<le> 0x200A) \<or>
      u = 0x2028 \<or> u = 0x2029 \<or> u = 0x202F \<or> u = 0x205F \<or> u = 0x3000 \<or>
      u = 0xFEFF)"

definition trim :: "js_string \<Rightarrow> js_string" where
  "trim t = rev (dropWhile isWhiteSpace (rev (dropWhile isWhiteSpace t)))"

text \<open>\<open>Array.prototype.join\<close> with a separator.\<close>

fun join :: "js_string \<Rightarrow> js_string list \<Rightarrow> js_string" where
  "join sep [] = []"
| "join sep [x] = x"
| "join sep (x # y # xs) = x @ sep @ join sep (y # xs)"

text \<open>
  \<open>String.prototype.toLowerCase\<close> is the full Unicode case mapping of the host. It is a
  parameter of the model (a field of the environment below), so that every theorem
  holds for whatever mapping the host implements. \<open>ascii_toLowerCase\<close> is the mapping
  restricted to ASCII text; it is only used to evaluate examples.
\<close>

definition ascii_toLowerCase :: "js_string \<Rightarrow> js_string" where
  "ascii_toLowerCase t = map (\<lambda>u. if 0x41 \<le> u \<and> u \<le> 0x5A then u + 0x20 else u) t"

section \<open>The inference service (services/geminiService)\<close>

text \<open>
  The environment of a run: the credential \<open>process.env.API_KEY\<close> (possibly undefined)
  and the host's \<open>toLowerCase\<close>. The credential is fixed for the lifetime of the page, so
  the module-level client \<open>ai\<close>, which only memoises the construction of the client
  once the credential check has passed, is not part of the state: \<open>getAI\<close> succeeds
  exactly when the credential is truthy.
\<close>

record env =
  API_KEY :: "js_string option"
  toLowerCase :: "js_string \<Rightarrow> js_string"

definition truthy :: "js_string option \<Rightarrow> bool" where
  "truthy v = (case v of None \<Rightarrow> False | Some t \<Rightarrow> t \<noteq> [])"

text \<open>The errors the service throws, and what \<open>generateContent\<close> may answer: a
  rejection, or a response whose \<open>text\<close> may be undefined.\<close>

datatype service_error = ApiKeyNotSet | TranslationFailed | SummaryFailed

datatype gen_response = Rejected | Response "js_string option"

definition getAI :: "env \<Rightarrow> service_error + unit" where
  "getAI e = (if \<not> truthy (API_KEY e) then Inl ApiKeyNotSet else Inr ())"

definition translateImageToText :: "env \<Rightarrow> gen_response \<Rightarrow> service_error + js_string" where
  "translateImageToText e r =
     (case getAI e of
        Inl err \<Rightarrow> Inl err
      | Inr _ \<Rightarrow>
          (case r of
             Rejected \<Rightarrow> Inl TranslationFailed
           | Response t \<Rightarrow> Inr (trim (case t of None \<Rightarrow> [] | Some x \<Rightarrow> x))))"

definition summarizeText :: "env \<Rightarrow> gen_response \<Rightarrow> service_error + js_string" where
  "summarizeText e r =
     (case getAI e of
        Inl err \<Rightarrow> Inl err
      | Inr _ \<Rightarrow>
          (case r of
             Rejected \<Rightarrow> Inl SummaryFailed
           | Response t \<Rightarrow> Inr (trim (case t of None \<Rightarrow> [] | Some x \<Rightarrow> x))))"

definition summarize_prompt :: "js_string list \<Rightarrow> js_string" where
  "summarize_prompt phrases =
     js ''Dari kumpulan kata hasil terjemahan bahasa isyarat berikut: ''
     @ [0x22] @ join (js '' '') phrases @ [0x22]
     @ js '', rangkailah menjadi satu kalimat yang utuh dan paling masuk akal dalam Bahasa Indonesia. Berikan hanya kalimat lengkapnya.''"

section \<open>The state of the component (App)\<close>

datatype Status = IDLE | STARTING | TRANSLATING | CAPTURING | STOPPING | ERROR

text \<open>
  A media stream is the list of its tracks, each named by a number. The video element
  carries the stream bound to it and whether the \<open>oncanplay\<close> handler of a session
  has been installed; a canvas may or may not yield a 2d context.
\<close>

type_synonym MediaStream = "nat list"

record HTMLVideoElement =
  srcObject :: "MediaStream option"
  oncanplay :: bool

record HTMLCanvasElement =
  context2d :: bool

text \<open>
  What the component does to the world outside its own state, in the order it does
  it: requesting the camera, playing the video, arming and cancelling the timer (with
  its period in ms, resp. its id), stopping a track, and the two calls of the gateway
  (with the image payload, resp. the prompt).
\<close>

datatype effect =
    GetUserMedia
  | VideoPlay
  | SetInterval nat
  | ClearInterval nat
  | TrackStop nat
  | GenerateContentImage js_string
  | GenerateContentText js_string

record app =
  isTranslating :: bool
  translatedPhrases :: "js_string list"
  summary :: "js_string option"
  isSummarizing :: bool
  status :: Status
  error :: "js_string option"
  videoRef :: "HTMLVideoElement option"
  canvasRef :: "HTMLCanvasElement option"
  captureInterval :: "nat option"
  effects :: "effect list"

definition initial :: "HTMLVideoElement option \<Rightarrow> HTMLCanvasElement option \<Rightarrow> app" where
  "initial v c =
     \<lparr>isTranslating = False, translatedPhrases = [], summary = None,
      isSummarizing = False, status = IDLE, error = None,
      videoRef = v, canvasRef = c, captureInterval = None, effects = []\<rparr>"

definition emit :: "effect list \<Rightarrow> app \<Rightarrow> app" where
  "emit es s = s\<lparr>effects := effects s @ es\<rparr>"

section \<open>Stopping a session\<close>

text \<open>
  \<open>if (captureInterval.current)\<close> is a truthiness test: a timer id of 0 counts as no
  timer.
\<close>

definition clearCapture :: "app \<Rightarrow> app" where
  "clearCapture s =
     (case captureInterval s of
        None \<Rightarrow> s
      | Some i \<Rightarrow> if i \<noteq> 0 then (emit [ClearInterval i] s)\<lparr>captureInterval := None\<rparr> else s)"

definition releaseStream :: "app \<Rightarrow> app" where
  "releaseStream s =
     (case videoRef s of
        None \<Rightarrow> s
      | Some v \<Rightarrow>
          (case srcObject v of
             None \<Rightarrow> s
           | Some stream \<Rightarrow>
               (emit (map TrackStop stream) s)\<lparr>videoRef := Some (v\<lparr>srcObject := None\<rparr>)\<rparr>))"

definition stopTranslationSession :: "app \<Rightarrow> app" where
  "stopTranslationSession s =
     (let s1 = s\<lparr>status := STOPPING\<rparr>;
          s2 = clearCapture s1;
          s3 = releaseStream s2;
          s4 = s3\<lparr>isTranslating := False\<rparr>
      in s4\<lparr>status := IDLE\<rparr>)"

section \<open>Starting a session\<close>

definition MSG_NO_KEY :: js_string where
  "MSG_NO_KEY = js ''Kunci API Gemini tidak ditemukan. Harap atur variabel lingkungan API_KEY.''"

definition MSG_CAMERA :: js_string where
  "MSG_CAMERA = js ''Gagal mengakses kamera.''"

definition MSG_CAMERA_DENIED :: js_string where
  "MSG_CAMERA_DENIED = js ''Izin kamera ditolak. Harap izinkan akses kamera di pengaturan browser Anda.''"

definition MSG_TRANSLATE :: js_string where
  "MSG_TRANSLATE = js ''Gagal menerjemahkan. Silakan coba lagi.''"

definition MSG_SUMMARIZE :: js_string where
  "MSG_SUMMARIZE = js ''Gagal membuat kesimpulan. Silakan coba lagi.''"

text \<open>
  \<open>startTranslationSession\<close> runs up to its \<open>await\<close>: the guard on the credential, the
  resets, and the request for the camera.
\<close>

definition startTranslationSession :: "env \<Rightarrow> app \<Rightarrow> app" where
  "startTranslationSession e s =
     (if \<not> truthy (API_KEY e) then
        s\<lparr>error := Some MSG_NO_KEY, status := ERROR\<rparr>
      else
        emit [GetUserMedia]
          (s\<lparr>error := None, translatedPhrases := [], summary := None,
             isTranslating := True, status := STARTING\<rparr>))"

text \<open>
  The rest of \<open>startTranslationSession\<close> runs when \<open>getUserMedia\<close> settles: with a stream,
  or with a rejection, of which the handler reads whether it is an \<open>Error\<close> and its
  name.
\<close>

datatype rejection = Rejection (isError: bool) (name: js_string)

definition startTranslationSession_resume :: "app \<Rightarrow> rejection + MediaStream \<Rightarrow> app" where
  "startTranslationSession_resume s r =
     (case r of
        Inr stream \<Rightarrow>
          (case videoRef s of
             None \<Rightarrow> s
           | Some v \<Rightarrow> s\<lparr>videoRef := Some (v\<lparr>srcObject := Some stream, oncanplay := True\<rparr>)\<rparr>)
      | Inl err \<Rightarrow>
          (let errorMessage =
                 (if isError err \<and> name err = js ''NotAllowedError''
                  then MSG_CAMERA_DENIED else MSG_CAMERA)
           in s\<lparr>error := Some errorMessage, status := ERROR, isTranslating := False\<rparr>))"

text \<open>
  The \<open>oncanplay\<close> handler, run by the video element once the handler is installed;
  \<open>i\<close> is the id \<open>window.setInterval\<close> returns.
\<close>

definition oncanplay_handler :: "app \<Rightarrow> nat \<Rightarrow> app" where
  "oncanplay_handler s i =
     (let s1 = (case videoRef s of None \<Rightarrow> s | Some v \<Rightarrow> emit [VideoPlay] s)
      in (emit [SetInterval 6000] s1)\<lparr>captureInterval := Some i\<rparr>)"

section \<open>The capture tick\<close>

text \<open>
  The state update \<open>setTranslatedPhrases(prev => ...)\<close> of a tick. The source's
  \<open>||\<close> does not look at the last phrase of an empty sequence, and neither does the
  first test here.
\<close>

definition appendPhrase :: "(js_string \<Rightarrow> js_string) \<Rightarrow> js_string list \<Rightarrow> js_string \<Rightarrow> js_string list" where
  "appendPhrase lower prev result =
     (if prev = [] then prev @ [result]
      else if lower (last prev) \<noteq> lower result then prev @ [result]
      else prev)"

text \<open>
  A tick does something only when the video, the canvas and its 2d context are there.
  \<open>tick_fire\<close> is the callback up to its \<open>await\<close>, for the frame it has drawn;
  the request goes out unless \<open>getAI\<close> throws.
\<close>

definition tick_ready :: "app \<Rightarrow> bool" where
  "tick_ready s =
     (case videoRef s of
        None \<Rightarrow> False
      | Some v \<Rightarrow> (case canvasRef s of None \<Rightarrow> False | Some c \<Rightarrow> context2d c))"

definition tick_fire :: "env \<Rightarrow> app \<Rightarrow> js_string \<Rightarrow> app" where
  "tick_fire e s frame =
     (if tick_ready s then
        (let s1 = s\<lparr>status := TRANSLATING\<rparr>
         in (case getAI e of Inl _ \<Rightarrow> s1 | Inr _ \<Rightarrow> emit [GenerateContentImage frame] s1))
      else s)"

text \<open>
  \<open>tick_settle\<close> is the callback after its \<open>await\<close>, for the settled value of
  \<open>translateImageToText\<close>: the \<open>try\<close> branch, the \<open>catch\<close> branch, then \<open>finally\<close>.
\<close>

definition tick_settle :: "env \<Rightarrow> app \<Rightarrow> service_error + js_string \<Rightarrow> app" where
  "tick_settle e s res =
     (let s1 =
            (case res of
               Inr result \<Rightarrow>
                 (if result \<noteq> [] then
                    s\<lparr>translatedPhrases := appendPhrase (toLowerCase e) (translatedPhrases s) result\<rparr>
                  else s)
             | Inl _ \<Rightarrow> stopTranslationSession (s\<lparr>error := Some MSG_TRANSLATE\<rparr>))
      in s1\<lparr>status := CAPTURING\<rparr>)"

text \<open>
  A whole tick: \<open>tick_with\<close> for the value its call of \<open>translateImageToText\<close> settles
  to, \<open>tick\<close> for the answer the gateway gives to the request. A tick that is not ready
  makes no call, so nothing settles.
\<close>

definition tick_with :: "env \<Rightarrow> app \<Rightarrow> js_string \<Rightarrow> service_error + js_string \<Rightarrow> app" where
  "tick_with e s frame res =
     (if tick_ready s then tick_settle e (tick_fire e s frame) res else s)"

definition tick :: "env \<Rightarrow> app \<Rightarrow> js_string \<Rightarrow> gen_response \<Rightarrow> app" where
  "tick e s frame r = tick_with e s frame (translateImageToText e r)"

section \<open>The commands of the user\<close>

definition handleToggleTranslation :: "env \<Rightarrow> app \<Rightarrow> app" where
  "handleToggleTranslation e s =
     (if isTranslating s then stopTranslationSession s else startTranslationSession e s)"

text \<open>
  \<open>handleSummarize\<close> up to its \<open>await\<close>, and \<open>handleSummarize_settle\<close> after it, for the
  settled value of \<open>summarizeText\<close>.
\<close>

definition handleSummarize_begin :: "env \<Rightarrow> app \<Rightarrow> app" where
  "handleSummarize_begin e s =
     (if length (translatedPhrases s) < 2 then s
      else
        (let s1 = s\<lparr>isSummarizing := True, error := None, summary := None\<rparr>
         in (case getAI e of
               Inl _ \<Rightarrow> s1
             | Inr _ \<Rightarrow> emit [GenerateContentText (summarize_prompt (translatedPhrases s))] s1)))"

definition handleSummarize_settle :: "app \<Rightarrow> service_error + js_string \<Rightarrow> app" where
  "handleSummarize_settle s res =
     (let s1 =
            (case res of
               Inr result \<Rightarrow> s\<lparr>summary := Some result\<rparr>
             | Inl _ \<Rightarrow> s\<lparr>error := Some MSG_SUMMARIZE\<rparr>)
      in s1\<lparr>isSummarizing := False\<rparr>)"

definition handleSummarize :: "env \<Rightarrow> app \<Rightarrow> gen_response \<Rightarrow> app" where
  "handleSummarize e s r =
     (if length (translatedPhrases s) < 2 then s
      else handleSummarize_settle (handleSummarize_begin e s) (summarizeText e r))"

section \<open>Runs of the component\<close>

text \<open>
  The events that drive the component: the two commands, the settling of the camera
  request, the video's \<open>canplay\<close>, the timer firing with a frame, and the two gateway
  calls settling. A run delivers any events in any order, which includes every
  schedule of the browser; what holds of all runs holds of the real ones.
\<close>

datatype event =
    Toggle
  | Start
  | Stop
  | CameraSettled "rejection + MediaStream"
  | CanPlay nat
  | TickFired js_string
  | TickSettled gen_response
  | Summarize
  | SummarizeSettled gen_response

fun step :: "env \<Rightarrow> app \<Rightarrow> event \<Rightarrow> app" where
  "step e s Toggle = handleToggleTranslation e s"
| "step e s Start = startTranslationSession e s"
| "step e s Stop = stopTranslationSession s"
| "step e s (CameraSettled r) = startTranslationSession_resume s r"
| "step e s (CanPlay i) =
     (case videoRef s of
        None \<Rightarrow> s
      | Some v \<Rightarrow> if oncanplay v then oncanplay_handler s i else s)"
| "step e s (TickFired frame) = tick_fire e s frame"
| "step e s (TickSettled r) = tick_settle e s (translateImageToText e r)"
| "step e s Summarize = handleSummarize_begin e s"
| "step e s (SummarizeSettled r) = handleSummarize_settle s (summarizeText e r)"

definition run :: "env \<Rightarrow> app \<Rightarrow> event list \<Rightarrow> app" where
  "run e s evs = foldl (step e) s evs"

section \<open>The phrase sequence as the specification words it\<close>

text \<open>
  The tick results with the empty strings dropped and each run of consecutive
  case-insensitively equal strings collapsed to its first member.
\<close>

fun collapse_ci :: "(js_string \<Rightarrow> js_string) \<Rightarrow> js_string list \<Rightarrow> js_string list" where
  "collapse_ci lower [] = []"
| "collapse_ci lower [x] = [x]"
| "collapse_ci lower (x # y # xs) =
     (if lower x = lower y then collapse_ci lower (x # xs) else x # collapse_ci lower (y # xs))"

definition spec_phrases :: "(js_string \<Rightarrow> js_string) \<Rightarrow> js_string list \<Rightarrow> js_string list" where
  "spec_phrases lower R = collapse_ci lower (filter (\<lambda>r. r \<noteq> []) R)"

fun no_adjacent_ci :: "(js_string \<Rightarrow> js_string) \<Rightarrow> js_string list \<Rightarrow> bool" where
  "no_adjacent_ci lower [] = True"
| "no_adjacent_ci lower [x] = True"
| "no_adjacent_ci lower (x # y # xs) = (lower x \<noteq> lower y \<and> no_adjacent_ci lower (y # xs))"

section \<open>Predicates of the properties\<close>

text \<open>A whole tick, for the frame it draws and the text its call of
  \<open>translateImageToText\<close> resolves to.\<close>

definition tick_resolved :: "env \<Rightarrow> app \<Rightarrow> js_string \<times> js_string \<Rightarrow> app" where
  "tick_resolved e s fr = tick_with e s (fst fr) (Inr (snd fr))"

text \<open>A phrase that is not empty and neither starts nor ends with white space.\<close>

definition well_trimmed :: "js_string \<Rightarrow> bool" where
  "well_trimmed p = (p \<noteq> [] \<and> \<not> isWhiteSpace (hd p) \<and> \<not> isWhiteSpace (last p))"

text \<open>The video element holds a camera stream.\<close>

definition stream_held :: "app \<Rightarrow> bool" where
  "stream_held s = (case videoRef s of None \<Rightarrow> False | Some v \<Rightarrow> srcObject v \<noteq> None)"

text \<open>An effect that is not the arming of a timer with another period than 6000 ms.\<close>

definition period_ok :: "effect \<Rightarrow> bool" where
  "period_ok x = (case x of SetInterval p \<Rightarrow> p = 6000 | _ \<Rightarrow> True)"

text \<open>An effect that touches neither the camera nor the network.\<close>

definition offline :: "effect \<Rightarrow> bool" where
  "offline x =
     (case x of
        GetUserMedia \<Rightarrow> False
      | GenerateContentImage _ \<Rightarrow> False
      | GenerateContentText _ \<Rightarrow> False
      | _ \<Rightarrow> True)"

text \<open>The events that start a session or belong to a summarize command.\<close>

fun summary_writer :: "app \<Rightarrow> event \<Rightarrow> bool" where
  "summary_writer s Start = True"
| "summary_writer s Toggle = (\<not> isTranslating s)"
| "summary_writer s Summarize = True"
| "summary_writer s (SummarizeSettled r) = True"
| "summary_writer s ev = False"

text \<open>The events that can empty the Summary: a start, or the first phase of a summarize
  command.\<close>

fun summary_clearer :: "app \<Rightarrow> event \<Rightarrow> bool" where
  "summary_clearer s Start = True"
| "summary_clearer s Toggle = (\<not> isTranslating s)"
| "summary_clearer s Summarize = True"
| "summary_clearer s ev = False"

section \<open>Example runs\<close>

definition env_ex :: env where
  "env_ex = \<lparr>API_KEY = Some (js ''key''), toLowerCase = ascii_toLowerCase\<rparr>"

definition env_nokey :: env where
  "env_nokey = \<lparr>API_KEY = None, toLowerCase = ascii_toLowerCase\<rparr>"

definition mounted :: app where
  "mounted = initial (Some \<lparr>srcObject = None, oncanplay = False\<rparr>) (Some \<lparr>context2d = True\<rparr>)"

text \<open>A session that has started, holds a camera stream with the one track 0 and the
  timer 1, and has translated one frame.\<close>

definition capturing_ex :: app where
  "capturing_ex =
     run env_ex mounted
       [Start, CameraSettled (Inr [0]), CanPlay 1,
        TickFired (js ''f1''), TickSettled (Response (Some (js ''Halo'')))]"

text \<open>The same session after a second phrase, then after a successful summary, then
  after a stop.\<close>

definition two_phrases_ex :: app where
  "two_phrases_ex = tick env_ex capturing_ex (js ''f2'') (Response (Some (js ''Selamat'')))"

definition summarized_ex :: app where
  "summarized_ex = handleSummarize env_ex two_phrases_ex (Response (Some (js ''Halo, selamat.'')))"

definition stopped_ex :: app where
  "stopped_ex = stopTranslationSession summarized_ex"

section \<open>Evaluation and basic facts\<close>

lemmas ex_defs = env_ex_def env_nokey_def mounted_def initial_def capturing_ex_def
  two_phrases_ex_def summarized_ex_def stopped_ex_def

lemmas op_defs = stopTranslationSession_def clearCapture_def releaseStream_def emit_def
  startTranslationSession_def startTranslationSession_resume_def oncanplay_handler_def
  tick_fire_def tick_settle_def tick_with_def tick_def tick_ready_def tick_resolved_def
  handleToggleTranslation_def handleSummarize_begin_def handleSummarize_settle_def
  handleSummarize_def translateImageToText_def summarizeText_def getAI_def truthy_def
  appendPhrase_def run_def Let_def

lemmas str_defs = js_def trim_def isWhiteSpace_def ascii_toLowerCase_def

lemma run_snoc: "run e s (evs @ [ev]) = step e (run e s evs) ev"
  by (simp add: run_def)

lemma run_Nil: "run e s [] = s"
  by (simp add: run_def)

lemma capturing_ex_value:
  "capturing_ex =
     \<lparr>isTranslating = True, translatedPhrases = [js ''Halo''], summary = None,
      isSummarizing = False, status = CAPTURING, error = None,
      videoRef = Some \<lparr>srcObject = Some [0], oncanplay = True\<rparr>,
      canvasRef = Some \<lparr>context2d = True\<rparr>, captureInterval = Some 1,
      effects = [GetUserMedia, VideoPlay, SetInterval 6000, GenerateContentImage (js ''f1'')]\<rparr>"
  by (simp add: ex_defs op_defs str_defs)

lemma two_phrases_ex_value:
  "two_phrases_ex =
     \<lparr>isTranslating = True, translatedPhrases = [js ''Halo'', js ''Selamat''], summary = None,
      isSummarizing = False, status = CAPTURING, error = None,
      videoRef = Some \<lparr>srcObject = Some [0], oncanplay = True\<rparr>,
      canvasRef = Some \<lparr>context2d = True\<rparr>, captureInterval = Some 1,
      effects = [GetUserMedia, VideoPlay, SetInterval 6000, GenerateContentImage (js ''f1''),
                 GenerateContentImage (js ''f2'')]\<rparr>"
  by (simp add: two_phrases_ex_def capturing_ex_value env_ex_def op_defs str_defs)

lemma stopped_ex_fields:
  "status stopped_ex = IDLE"
  "isTranslating stopped_ex = False"
  "translatedPhrases stopped_ex = [js ''Halo'', js ''Selamat'']"
  "summary stopped_ex = Some (js ''Halo, selamat.'')"
  "error stopped_ex = None"
  "captureInterval stopped_ex = None"
  "videoRef stopped_ex = Some \<lparr>srcObject = None, oncanplay = True\<rparr>"
  by (simp_all add: stopped_ex_def summarized_ex_def two_phrases_ex_value env_ex_def op_defs str_defs)

lemma summarized_ex_fields:
  "status summarized_ex = CAPTURING"
  "translatedPhrases summarized_ex = [js ''Halo'', js ''Selamat'']"
  "summary summarized_ex = Some (js ''Halo, selamat.'')"
  by (simp_all add: summarized_ex_def two_phrases_ex_value env_ex_def op_defs str_defs)

subsection \<open>What stopping leaves alone\<close>

lemma stop_fields [simp]:
  "translatedPhrases (stopTranslationSession s) = translatedPhrases s"
  "summary (stopTranslationSession s) = summary s"
  "error (stopTranslationSession s) = error s"
  "isSummarizing (stopTranslationSession s) = isSummarizing s"
  "canvasRef (stopTranslationSession s) = canvasRef s"
  "status (stopTranslationSession s) = IDLE"
  "isTranslating (stopTranslationSession s) = False"
  by (simp_all add: stopTranslationSession_def clearCapture_def releaseStream_def emit_def Let_def
        split: option.splits)

lemma stop_effects_all:
  assumes "list_all P (effects s)" and "\<And>i. P (ClearInterval i)" and "\<And>k. P (TrackStop k)"
  shows "list_all P (effects (stopTranslationSession s))"
  using assms
  by (auto simp add: stopTranslationSession_def clearCapture_def releaseStream_def emit_def Let_def
        list_all_iff split: option.splits)

lemma stop_when_idle:
  "status s = IDLE \<Longrightarrow> \<not> isTranslating s \<Longrightarrow> captureInterval s = None \<Longrightarrow> \<not> stream_held s
     \<Longrightarrow> stopTranslationSession s = s"
  by (auto simp add: stream_held_def stopTranslationSession_def clearCapture_def releaseStream_def
        emit_def Let_def split: option.splits)

lemma stop_twice:
  "stopTranslationSession (stopTranslationSession s) = stopTranslationSession s"
  by (auto simp add: stopTranslationSession_def clearCapture_def releaseStream_def emit_def Let_def
        split: option.splits)

lemma phrases_tick_fire [simp]: "translatedPhrases (tick_fire e s frame) = translatedPhrases s"
  by (simp add: tick_fire_def emit_def Let_def split: sum.splits)

section \<open>The phrase sequence\<close>

lemma collapse_ci_Cons: "\<exists>zs. collapse_ci lower (x # xs) = x # zs"
  by (induction xs) auto

lemma no_adjacent_collapse_ci: "no_adjacent_ci lower (collapse_ci lower xs)"
proof (induction lower xs rule: collapse_ci.induct)
  case (3 lower x y xs)
  obtain zs where zs: "collapse_ci lower (y # xs) = y # zs"
    using collapse_ci_Cons by blast
  show ?case
  proof (cases "lower x = lower y")
    case True
    with 3 show ?thesis by simp
  next
    case False
    with 3 zs show ?thesis by simp
  qed
qed simp_all

text \<open>The accumulation of the code, started on a sequence that ends with \<open>p\<close>, is the
  collapsing of the specification started at \<open>p\<close>.\<close>

lemma fold_append_last:
  "foldl (\<lambda>p r. if r \<noteq> [] then appendPhrase lower p r else p) (ps @ [p]) R
     = ps @ collapse_ci lower (p # filter (\<lambda>r. r \<noteq> []) R)"
proof (induction R arbitrary: ps p)
  case Nil
  show ?case by simp
next
  case (Cons r R)
  show ?case
  proof (cases "r = []")
    case True
    then show ?thesis using Cons[of ps p] by simp
  next
    case ne: False
    show ?thesis
    proof (cases "lower p = lower r")
      case True
      then show ?thesis using ne Cons[of ps p] by (simp add: appendPhrase_def)
    next
      case False
      then show ?thesis using ne Cons[of "ps @ [p]" r] by (simp add: appendPhrase_def)
    qed
  qed
qed

lemma fold_from_empty:
  "foldl (\<lambda>p r. if r \<noteq> [] then appendPhrase lower p r else p) [] R = spec_phrases lower R"
proof (induction R)
  case Nil
  show ?case by (simp add: spec_phrases_def)
next
  case (Cons r R)
  show ?case
  proof (cases "r = []")
    case True
    with Cons show ?thesis by (simp add: spec_phrases_def)
  next
    case False
    then show ?thesis using fold_append_last[of lower "[]" r R]
      by (simp add: spec_phrases_def appendPhrase_def)
  qed
qed

lemma no_adjacent_ci_snoc:
  "no_adjacent_ci lower (xs @ [r])
     = (no_adjacent_ci lower xs \<and> (xs = [] \<or> lower (last xs) \<noteq> lower r))"
  by (induction lower xs rule: no_adjacent_ci.induct) auto

lemma appendPhrase_no_adjacent:
  "no_adjacent_ci lower prev \<Longrightarrow> no_adjacent_ci lower (appendPhrase lower prev r)"
  by (simp add: appendPhrase_def no_adjacent_ci_snoc)

lemma tick_resolved_ready: "tick_ready s \<Longrightarrow> tick_ready (tick_resolved e s fr)"
  by (simp add: tick_resolved_def tick_with_def tick_settle_def tick_fire_def tick_ready_def
        emit_def Let_def split: sum.splits option.splits)

lemma phrases_tick_resolved:
  "tick_ready s \<Longrightarrow>
   translatedPhrases (tick_resolved e s fr)
     = (if snd fr \<noteq> [] then appendPhrase (toLowerCase e) (translatedPhrases s) (snd fr)
        else translatedPhrases s)"
  by (simp add: tick_resolved_def tick_with_def tick_settle_def Let_def)

lemma phrases_ticks:
  "tick_ready s \<Longrightarrow>
   translatedPhrases (foldl (tick_resolved e) s FR)
     = foldl (\<lambda>p r. if r \<noteq> [] then appendPhrase (toLowerCase e) p r else p)
         (translatedPhrases s) (map snd FR)"
proof (induction FR arbitrary: s)
  case Nil
  show ?case by simp
next
  case (Cons fr FR)
  from Cons.prems have "tick_ready (tick_resolved e s fr)"
    by (rule tick_resolved_ready)
  from Cons.IH[OF this] Cons.prems show ?case
    by (simp add: phrases_tick_resolved)
qed

text \<open>In every run the phrase sequence has no two neighbours that are equal up to
  case.\<close>

lemma step_no_adjacent:
  assumes "no_adjacent_ci (toLowerCase e) (translatedPhrases s)"
  shows "no_adjacent_ci (toLowerCase e) (translatedPhrases (step e s ev))"
proof (cases ev)
  case Toggle
  then show ?thesis using assms
    by (simp add: handleToggleTranslation_def startTranslationSession_def emit_def)
next
  case Start
  then show ?thesis using assms by (simp add: startTranslationSession_def emit_def)
next
  case Stop
  then show ?thesis using assms by simp
next
  case (CameraSettled r)
  then show ?thesis using assms
    by (simp add: startTranslationSession_resume_def Let_def split: sum.splits option.splits)
next
  case (CanPlay i)
  then show ?thesis using assms
    by (simp add: oncanplay_handler_def emit_def Let_def split: option.splits)
next
  case (TickFired frame)
  then show ?thesis using assms by simp
next
  case (TickSettled r)
  then show ?thesis using assms
    by (simp add: tick_settle_def Let_def appendPhrase_no_adjacent split: sum.splits)
next
  case Summarize
  then show ?thesis using assms
    by (simp add: handleSummarize_begin_def emit_def Let_def split: sum.splits)
next
  case (SummarizeSettled r)
  then show ?thesis using assms
    by (simp add: handleSummarize_settle_def Let_def split: sum.splits)
qed

lemma run_no_adjacent:
  "no_adjacent_ci (toLowerCase e) (translatedPhrases (run e (initial v c) evs))"
proof (induction evs rule: rev_induct)
  case Nil
  show ?case by (simp add: run_Nil initial_def)
next
  case (snoc ev evs)
  then show ?case unfolding run_snoc by (rule step_no_adjacent)
qed

text \<open>
  C1. Let a session start with the empty phrase sequence, in a state where ticks run
  (the video, the canvas and its context are there), and let its ticks deliver the
  results \<open>map snd FR\<close> (each with the frame it was asked for). Then the phrase sequence
  is those results with the empty strings dropped and consecutive case-insensitive
  duplicates collapsed to the first occurrence, and no two adjacent phrases are equal
  up to case. The latter holds in every run of the component, whatever the events.
  All of this holds for every case mapping of the host.
\<close>

theorem phrase_sequence_collapses:
  assumes "translatedPhrases s = []" and "tick_ready s"
  shows "translatedPhrases (foldl (tick_resolved e) s FR) = spec_phrases (toLowerCase e) (map snd FR)
         \<and> no_adjacent_ci (toLowerCase e) (translatedPhrases (foldl (tick_resolved e) s FR))
         \<and> no_adjacent_ci (toLowerCase e') (translatedPhrases (run e' (initial v c) evs))"
  using assms
  by (simp add: phrases_ticks fold_from_empty spec_phrases_def no_adjacent_collapse_ci
        run_no_adjacent)

theorem phrase_sequence_collapses_witness:
  "translatedPhrases (startTranslationSession env_ex mounted) = []
   \<and> tick_ready (startTranslationSession env_ex mounted)
   \<and> translatedPhrases
       (foldl (tick_resolved env_ex) (startTranslationSession env_ex mounted)
          [(js ''f1'', js ''Halo''), (js ''f2'', js ''halo''), (js ''f3'', []),
           (js ''f4'', js ''Selamat'')])
     = [js ''Halo'', js ''Selamat'']"
proof -
  have h1: "translatedPhrases (startTranslationSession env_ex mounted) = []"
    by (simp add: ex_defs op_defs str_defs)
  have h2: "tick_ready (startTranslationSession env_ex mounted)"
    by (simp add: ex_defs op_defs str_defs)
  show ?thesis
    using h1 h2 phrase_sequence_collapses [OF h1 h2, of env_ex
        "[(js ''f1'', js ''Halo''), (js ''f2'', js ''halo''), (js ''f3'', []),
          (js ''f4'', js ''Selamat'')]"]
    by (simp add: env_ex_def spec_phrases_def str_defs)
qed

section \<open>Failure of a translation\<close>

text \<open>Whatever the state, a tick that runs and whose translation fails ends in
  \<open>CAPTURING\<close>: the \<open>finally\<close> block writes the status after \<open>stop\<close> has.\<close>

lemma failed_tick_status:
  assumes "tick_ready s" and "translateImageToText e r = Inl err"
  shows "status (tick e s frame r) = CAPTURING \<and> \<not> isTranslating (tick e s frame r)"
  using assms by (simp add: tick_def tick_with_def tick_settle_def Let_def)

text \<open>
  C2. In the running session \<open>capturing_ex\<close> a tick whose gateway call is rejected
  records the translation-failure message, cancels the timer and stops the one track
  of the camera once, and leaves no stream held; but the status it ends in is
  \<open>CAPTURING\<close>, not \<open>IDLE\<close>.
\<close>

theorem failed_tick_leaves_capturing:
  "status (tick env_ex capturing_ex (js ''f2'') Rejected) = CAPTURING
   \<and> error (tick env_ex capturing_ex (js ''f2'') Rejected) = Some MSG_TRANSLATE
   \<and> \<not> isTranslating (tick env_ex capturing_ex (js ''f2'') Rejected)
   \<and> captureInterval (tick env_ex capturing_ex (js ''f2'') Rejected) = None
   \<and> \<not> stream_held (tick env_ex capturing_ex (js ''f2'') Rejected)
   \<and> effects (tick env_ex capturing_ex (js ''f2'') Rejected)
       = effects capturing_ex @ [GenerateContentImage (js ''f2''), ClearInterval 1, TrackStop 0]"
  by (simp add: capturing_ex_value env_ex_def op_defs stream_held_def js_def)

section \<open>Summarizing\<close>

text \<open>
  C3, as the code has it. When at least two phrases are stored and the summarization
  call fails, the summarization-failure message is stored and the Summary is empty
  afterwards, whatever it was before: \<open>handleSummarize\<close> resets it before the call.
  The status, the activity flag, the phrases, the timer and the elements of the
  capture session are as they were.
\<close>

theorem summarize_failure_clears_summary:
  assumes "\<not> length (translatedPhrases s) < 2" and "summarizeText e r = Inl err"
  shows "error (handleSummarize e s r) = Some MSG_SUMMARIZE
         \<and> summary (handleSummarize e s r) = None
         \<and> \<not> isSummarizing (handleSummarize e s r)
         \<and> status (handleSummarize e s r) = status s
         \<and> isTranslating (handleSummarize e s r) = isTranslating s
         \<and> translatedPhrases (handleSummarize e s r) = translatedPhrases s
         \<and> captureInterval (handleSummarize e s r) = captureInterval s
         \<and> videoRef (handleSummarize e s r) = videoRef s
         \<and> canvasRef (handleSummarize e s r) = canvasRef s"
  using assms
  by (simp add: handleSummarize_def handleSummarize_begin_def handleSummarize_settle_def
        emit_def Let_def split: sum.splits)

theorem summarize_failure_clears_summary_witness:
  "\<not> length (translatedPhrases two_phrases_ex) < 2
   \<and> summarizeText env_ex Rejected = Inl SummaryFailed
   \<and> error (handleSummarize env_ex two_phrases_ex Rejected) = Some MSG_SUMMARIZE
   \<and> summary (handleSummarize env_ex two_phrases_ex Rejected) = None
   \<and> status (handleSummarize env_ex two_phrases_ex Rejected) = CAPTURING"
proof -
  have h1: "\<not> length (translatedPhrases two_phrases_ex) < 2"
    by (simp add: two_phrases_ex_value)
  have h2: "summarizeText env_ex Rejected = Inl SummaryFailed"
    by (simp add: env_ex_def summarizeText_def getAI_def truthy_def js_def)
  show ?thesis
    using h1 h2 summarize_failure_clears_summary [OF h1 h2]
    by (simp add: two_phrases_ex_value)
qed

text \<open>The claim C3 as it is worded fails: a stored Summary does not survive a failed
  summarize command.\<close>

theorem summarize_failure_counterexample:
  "summarizeText env_ex Rejected = Inl SummaryFailed
   \<and> summary stopped_ex = Some (js ''Halo, selamat.'')
   \<and> summary (handleSummarize env_ex stopped_ex Rejected) \<noteq> summary stopped_ex"
  by (simp add: stopped_ex_fields handleSummarize_def handleSummarize_begin_def
        handleSummarize_settle_def summarizeText_def getAI_def truthy_def emit_def env_ex_def
        js_def Let_def)

text \<open>
  C7. With fewer than two phrases stored, the summarize command returns the state it
  was given, by either of its two phases: nothing is written and the gateway is not
  called.
\<close>

theorem summarize_noop_below_two:
  assumes "length (translatedPhrases s) < 2"
  shows "handleSummarize e s r = s \<and> handleSummarize_begin e s = s"
  using assms by (simp add: handleSummarize_def handleSummarize_begin_def)

theorem summarize_noop_below_two_witness:
  "length (translatedPhrases capturing_ex) < 2
   \<and> handleSummarize env_ex capturing_ex (Response (Some (js ''Halo.''))) = capturing_ex
   \<and> handleSummarize_begin env_ex capturing_ex = capturing_ex"
proof -
  have h: "length (translatedPhrases capturing_ex) < 2"
    by (simp add: capturing_ex_value)
  show ?thesis
    using h summarize_noop_below_two [OF h, of env_ex "Response (Some (js ''Halo.''))"] by simp
qed

section \<open>Starting\<close>

text \<open>
  C4, as the code has it. With a credential configured, the part of start that runs
  before the camera answers clears the error, the phrase sequence and the Summary,
  sets the status to \<open>STARTING\<close> and only then asks for the camera. With no credential,
  the phrase sequence and the Summary stay as they were, the configuration message is
  stored and the status is \<open>ERROR\<close>.
\<close>

theorem start_clears_when_configured:
  "(truthy (API_KEY e) \<longrightarrow>
      error (startTranslationSession e s) = None
      \<and> translatedPhrases (startTranslationSession e s) = []
      \<and> summary (startTranslationSession e s) = None
      \<and> status (startTranslationSession e s) = STARTING
      \<and> effects (startTranslationSession e s) = effects s @ [GetUserMedia])
   \<and> (\<not> truthy (API_KEY e) \<longrightarrow>
      translatedPhrases (startTranslationSession e s) = translatedPhrases s
      \<and> summary (startTranslationSession e s) = summary s
      \<and> status (startTranslationSession e s) = ERROR
      \<and> error (startTranslationSession e s) = Some MSG_NO_KEY)"
  by (simp add: startTranslationSession_def emit_def)

theorem start_clears_when_configured_witness:
  "truthy (API_KEY env_ex)
   \<and> translatedPhrases (startTranslationSession env_ex stopped_ex) = []
   \<and> summary (startTranslationSession env_ex stopped_ex) = None
   \<and> status (startTranslationSession env_ex stopped_ex) = STARTING
   \<and> \<not> truthy (API_KEY env_nokey)
   \<and> translatedPhrases (startTranslationSession env_nokey stopped_ex) = [js ''Halo'', js ''Selamat'']
   \<and> summary (startTranslationSession env_nokey stopped_ex) = Some (js ''Halo, selamat.'')
   \<and> status (startTranslationSession env_nokey stopped_ex) = ERROR"
proof -
  have h1: "truthy (API_KEY env_ex)" by (simp add: env_ex_def truthy_def js_def)
  have h2: "\<not> truthy (API_KEY env_nokey)" by (simp add: env_nokey_def truthy_def)
  show ?thesis
    using h1 h2 start_clears_when_configured [of env_ex stopped_ex]
      start_clears_when_configured [of env_nokey stopped_ex]
    by (simp add: stopped_ex_fields)
qed

text \<open>The claim C4 as it is worded fails: started from \<open>IDLE\<close> with no credential, the
  command does not clear the phrases and the Summary and does not reach \<open>STARTING\<close>.\<close>

theorem start_clears_counterexample:
  "status stopped_ex = IDLE
   \<and> \<not> (error (startTranslationSession env_nokey stopped_ex) = None
        \<and> translatedPhrases (startTranslationSession env_nokey stopped_ex) = []
        \<and> summary (startTranslationSession env_nokey stopped_ex) = None
        \<and> status (startTranslationSession env_nokey stopped_ex) = STARTING)"
  by (simp add: stopped_ex_fields startTranslationSession_def env_nokey_def truthy_def)

subsection \<open>No credential, no camera and no network\<close>

lemma step_offline:
  assumes "\<not> truthy (API_KEY e)" and "list_all offline (effects s)"
  shows "list_all offline (effects (step e s ev))"
proof (cases ev)
  case Toggle
  then show ?thesis using assms stop_effects_all[of offline s]
    by (simp add: handleToggleTranslation_def startTranslationSession_def offline_def)
next
  case Start
  then show ?thesis using assms by (simp add: startTranslationSession_def)
next
  case Stop
  then show ?thesis using assms stop_effects_all[of offline s]
    by (simp add: offline_def)
next
  case (CameraSettled r)
  then show ?thesis using assms
    by (simp add: startTranslationSession_resume_def Let_def split: sum.splits option.splits)
next
  case (CanPlay i)
  then show ?thesis using assms
    by (simp add: oncanplay_handler_def emit_def Let_def offline_def split: option.splits)
next
  case (TickFired frame)
  then show ?thesis using assms
    by (simp add: tick_fire_def getAI_def Let_def)
next
  case (TickSettled r)
  then show ?thesis
    using assms stop_effects_all[of offline "s\<lparr>error := Some MSG_TRANSLATE\<rparr>"]
    by (simp add: tick_settle_def translateImageToText_def getAI_def Let_def offline_def)
next
  case Summarize
  then show ?thesis using assms
    by (simp add: handleSummarize_begin_def getAI_def Let_def)
next
  case (SummarizeSettled r)
  then show ?thesis using assms
    by (simp add: handleSummarize_settle_def Let_def split: sum.splits)
qed

lemma run_offline:
  assumes "\<not> truthy (API_KEY e)"
  shows "list_all offline (effects (run e (initial v c) evs))"
proof (induction evs rule: rev_induct)
  case Nil
  show ?case by (simp add: run_Nil initial_def)
next
  case (snoc ev evs)
  then show ?case unfolding run_snoc by (rule step_offline[OF assms])
qed

text \<open>
  C5. With no credential configured, start stores the configuration message, sets the
  status to \<open>ERROR\<close> and has no effect outside the state; and in no run of the
  component, whatever the events, is the camera requested or the gateway called.
\<close>

theorem start_without_credential:
  assumes "\<not> truthy (API_KEY e)"
  shows "status (startTranslationSession e s) = ERROR
         \<and> error (startTranslationSession e s) = Some MSG_NO_KEY
         \<and> effects (startTranslationSession e s) = effects s
         \<and> list_all offline (effects (run e (initial v c) evs))"
  using assms by (simp add: startTranslationSession_def run_offline)

theorem start_without_credential_witness:
  "\<not> truthy (API_KEY env_nokey)
   \<and> status (startTranslationSession env_nokey mounted) = ERROR
   \<and> error (startTranslationSession env_nokey mounted) = Some MSG_NO_KEY
   \<and> effects (startTranslationSession env_nokey mounted) = []
   \<and> list_all offline
       (effects (run env_nokey mounted [Toggle, CanPlay 1, TickFired (js ''f1''), Summarize, Stop]))"
proof -
  have h: "\<not> truthy (API_KEY env_nokey)" by (simp add: env_nokey_def truthy_def)
  have m: "effects mounted = []" by (simp add: mounted_def initial_def)
  show ?thesis
    using h m start_without_credential [OF h, of mounted
        "Some \<lparr>srcObject = None, oncanplay = False\<rparr>" "Some \<lparr>context2d = True\<rparr>"
        "[Toggle, CanPlay 1, TickFired (js ''f1''), Summarize, Stop]"]
    by (simp add: mounted_def)
qed

section \<open>Stopping\<close>

text \<open>In every run, a session whose status is \<open>IDLE\<close> is not active.\<close>

lemma step_idle_inactive:
  assumes "status s = IDLE \<longrightarrow> \<not> isTranslating s"
  shows "status (step e s ev) = IDLE \<longrightarrow> \<not> isTranslating (step e s ev)"
proof (cases ev)
  case Toggle
  then show ?thesis by (simp add: handleToggleTranslation_def startTranslationSession_def emit_def)
next
  case Start
  then show ?thesis by (simp add: startTranslationSession_def emit_def)
next
  case Stop
  then show ?thesis by simp
next
  case (CameraSettled r)
  then show ?thesis using assms
    by (simp add: startTranslationSession_resume_def Let_def split: sum.splits option.splits)
next
  case (CanPlay i)
  then show ?thesis using assms
    by (simp add: oncanplay_handler_def emit_def Let_def split: option.splits)
next
  case (TickFired frame)
  then show ?thesis using assms
    by (simp add: tick_fire_def emit_def Let_def split: sum.splits)
next
  case (TickSettled r)
  then show ?thesis by (simp add: tick_settle_def Let_def)
next
  case Summarize
  then show ?thesis using assms
    by (simp add: handleSummarize_begin_def emit_def Let_def split: sum.splits)
next
  case (SummarizeSettled r)
  then show ?thesis using assms
    by (simp add: handleSummarize_settle_def Let_def split: sum.splits)
qed

lemma run_idle_inactive:
  "status (run e (initial v c) evs) = IDLE \<longrightarrow> \<not> isTranslating (run e (initial v c) evs)"
proof (induction evs rule: rev_induct)
  case Nil
  show ?case by (simp add: run_Nil initial_def)
next
  case (snoc ev evs)
  then show ?case unfolding run_snoc by (rule step_idle_inactive)
qed

text \<open>
  C6. Let \<open>s\<close> be a state of some run of the component in which the status is \<open>IDLE\<close>, no
  timer is registered and no camera stream is held. Then stop returns \<open>s\<close> itself: the
  status, the phrases, the Summary, the error and the activity flag are the same, and
  the list of effects has not grown, so nothing is released again. Moreover, in any
  state \<open>t\<close> at all, a second stop right after a first changes nothing.
\<close>

theorem stop_idempotent:
  assumes "s = run e (initial v c) evs"
      and "status s = IDLE" and "captureInterval s = None" and "\<not> stream_held s"
  shows "stopTranslationSession s = s
         \<and> stopTranslationSession (stopTranslationSession t) = stopTranslationSession t"
proof -
  from assms(1,2) have "\<not> isTranslating s"
    using run_idle_inactive[of e v c evs] by simp
  with assms show ?thesis
    by (simp add: stop_when_idle stop_twice)
qed

theorem stop_idempotent_witness:
  "stopped_ex =
     run env_ex (initial (Some \<lparr>srcObject = None, oncanplay = False\<rparr>) (Some \<lparr>context2d = True\<rparr>))
       [Start, CameraSettled (Inr [0]), CanPlay 1,
        TickFired (js ''f1''), TickSettled (Response (Some (js ''Halo''))),
        TickFired (js ''f2''), TickSettled (Response (Some (js ''Selamat''))),
        Summarize, SummarizeSettled (Response (Some (js ''Halo, selamat.''))), Stop]
   \<and> status stopped_ex = IDLE \<and> captureInterval stopped_ex = None \<and> \<not> stream_held stopped_ex
   \<and> stopTranslationSession stopped_ex = stopped_ex
   \<and> stopTranslationSession (stopTranslationSession capturing_ex) = stopTranslationSession capturing_ex"
proof -
  have h1: "stopped_ex =
     run env_ex (initial (Some \<lparr>srcObject = None, oncanplay = False\<rparr>) (Some \<lparr>context2d = True\<rparr>))
       [Start, CameraSettled (Inr [0]), CanPlay 1,
        TickFired (js ''f1''), TickSettled (Response (Some (js ''Halo''))),
        TickFired (js ''f2''), TickSettled (Response (Some (js ''Selamat''))),
        Summarize, SummarizeSettled (Response (Some (js ''Halo, selamat.''))), Stop]"
    by (simp add: ex_defs op_defs str_defs)
  have h2: "status stopped_ex = IDLE" by (simp add: stopped_ex_fields)
  have h3: "captureInterval stopped_ex = None" by (simp add: stopped_ex_fields)
  have h4: "\<not> stream_held stopped_ex" by (simp add: stream_held_def stopped_ex_fields)
  show ?thesis
    using h1 h2 h3 h4 stop_idempotent [OF h1 h2 h3 h4, of capturing_ex] by simp
qed

subsection \<open>The Summary outlives the session\<close>

lemma step_summary:
  assumes "\<not> summary_writer s ev"
  shows "summary (step e s ev) = summary s"
proof (cases ev)
  case Toggle
  then show ?thesis using assms by (simp add: handleToggleTranslation_def)
next
  case (CameraSettled r)
  then show ?thesis
    by (simp add: startTranslationSession_resume_def Let_def split: sum.splits option.splits)
next
  case (CanPlay i)
  then show ?thesis
    by (simp add: oncanplay_handler_def emit_def Let_def split: option.splits)
next
  case (TickFired frame)
  then show ?thesis
    by (simp add: tick_fire_def emit_def Let_def split: sum.splits)
next
  case (TickSettled r)
  then show ?thesis
    by (simp add: tick_settle_def Let_def split: sum.splits)
qed (use assms in simp_all)

lemma summarize_then_stop:
  assumes "\<not> length (translatedPhrases s) < 2" and "summarizeText e r = Inr x"
  shows "status (stopTranslationSession (handleSummarize e s r)) = IDLE
         \<and> summary (stopTranslationSession (handleSummarize e s r)) = Some x"
  using assms
  by (simp add: handleSummarize_def handleSummarize_begin_def handleSummarize_settle_def
        emit_def Let_def split: sum.splits)

lemma step_summary_cleared:
  assumes "summary s \<noteq> None" and "summary (step e s ev) = None"
  shows "summary_clearer s ev"
proof (cases ev)
  case Toggle
  then show ?thesis using assms by (simp add: handleToggleTranslation_def split: if_splits)
next
  case Stop
  then show ?thesis using assms by simp
next
  case (CameraSettled r)
  then show ?thesis using assms
    by (simp add: startTranslationSession_resume_def Let_def split: sum.splits option.splits)
next
  case (CanPlay i)
  then show ?thesis using assms
    by (simp add: oncanplay_handler_def emit_def Let_def split: option.splits if_splits)
next
  case (TickFired frame)
  then show ?thesis using assms
    by (simp add: tick_fire_def emit_def Let_def split: sum.splits if_splits)
next
  case (TickSettled r)
  then show ?thesis using assms
    by (simp add: tick_settle_def Let_def split: sum.splits if_splits)
next
  case (SummarizeSettled r)
  then show ?thesis using assms
    by (simp add: handleSummarize_settle_def Let_def split: sum.splits)
qed simp_all

lemma summarize_begin_clears:
  "\<not> length (translatedPhrases s) < 2 \<Longrightarrow> summary (handleSummarize_begin e s) = None"
  by (simp add: handleSummarize_begin_def emit_def Let_def split: sum.splits)

lemma summarize_failure_summary:
  "\<not> length (translatedPhrases s) < 2 \<Longrightarrow> summarizeText e r = Inl err
     \<Longrightarrow> summary (handleSummarize e s r) = None"
  by (simp add: handleSummarize_def handleSummarize_begin_def handleSummarize_settle_def
        emit_def Let_def split: sum.splits)

text \<open>
  C8, as the code has it. Stop changes neither the phrase sequence nor the Summary.
  After a summarize command that succeeds with the sentence \<open>x\<close>, followed by stop, the
  status is \<open>IDLE\<close> and the Summary is \<open>x\<close>. An event that changes the Summary is a start
  (the command itself, or the toggle of an inactive session) or belongs to a summarize
  command, and an event that empties a stored Summary is a start or the first phase of
  a summarize command. A start with a credential configured empties it; so does a
  summarize command over two or more phrases, before it calls the gateway, and when the
  call fails (\<open>r'\<close>) the Summary stays empty.
\<close>

theorem summary_cleared_by_start_or_summarize:
  "translatedPhrases (stopTranslationSession s) = translatedPhrases s
   \<and> summary (stopTranslationSession s) = summary s
   \<and> (\<not> length (translatedPhrases s) < 2 \<and> summarizeText e r = Inr x \<longrightarrow>
        status (stopTranslationSession (handleSummarize e s r)) = IDLE
        \<and> summary (stopTranslationSession (handleSummarize e s r)) = Some x)
   \<and> (summary (step e s ev) \<noteq> summary s \<longrightarrow> summary_writer s ev)
   \<and> (summary s \<noteq> None \<and> summary (step e s ev) = None \<longrightarrow> summary_clearer s ev)
   \<and> (truthy (API_KEY e) \<longrightarrow> summary (startTranslationSession e s) = None)
   \<and> (\<not> length (translatedPhrases s) < 2 \<longrightarrow> summary (handleSummarize_begin e s) = None)
   \<and> (\<not> length (translatedPhrases s) < 2 \<and> summarizeText e r' = Inl err \<longrightarrow>
        summary (handleSummarize e s r') = None)"
  using step_summary[of s ev e] summarize_then_stop[of s e r x]
    step_summary_cleared[of s e ev] summarize_begin_clears[of s e]
    summarize_failure_summary[of s e r' err]
  by (auto simp add: startTranslationSession_def emit_def)

theorem summary_cleared_by_start_or_summarize_witness:
  "\<not> length (translatedPhrases summarized_ex) < 2
   \<and> summarizeText env_ex (Response (Some (js '' Halo. ''))) = Inr (js ''Halo.'')
   \<and> status (stopTranslationSession (handleSummarize env_ex summarized_ex (Response (Some (js '' Halo. ''))))) = IDLE
   \<and> summary (stopTranslationSession (handleSummarize env_ex summarized_ex (Response (Some (js '' Halo. ''))))) = Some (js ''Halo.'')
   \<and> summary summarized_ex \<noteq> None
   \<and> summary (step env_ex summarized_ex Summarize) = None
   \<and> summary (step env_ex summarized_ex Summarize) \<noteq> summary summarized_ex
   \<and> summary_writer summarized_ex Summarize
   \<and> summary_clearer summarized_ex Summarize
   \<and> truthy (API_KEY env_ex)
   \<and> summary (startTranslationSession env_ex summarized_ex) = None
   \<and> summary (handleSummarize_begin env_ex summarized_ex) = None
   \<and> summarizeText env_ex Rejected = Inl SummaryFailed
   \<and> summary (handleSummarize env_ex summarized_ex Rejected) = None"
proof -
  have h1: "\<not> length (translatedPhrases summarized_ex) < 2"
    by (simp add: summarized_ex_fields)
  have h2: "summarizeText env_ex (Response (Some (js '' Halo. ''))) = Inr (js ''Halo.'')"
    by (simp add: env_ex_def summarizeText_def getAI_def truthy_def str_defs)
  have h3: "truthy (API_KEY env_ex)"
    by (simp add: env_ex_def truthy_def js_def)
  have h4: "summary summarized_ex \<noteq> None"
    by (simp add: summarized_ex_fields)
  have h5: "summary (step env_ex summarized_ex Summarize) = None"
    using h3 by (simp add: summarized_ex_fields handleSummarize_begin_def getAI_def emit_def)
  have h6: "summarizeText env_ex Rejected = Inl SummaryFailed"
    by (simp add: env_ex_def summarizeText_def getAI_def truthy_def js_def)
  show ?thesis
    using h1 h2 h3 h4 h5 h6
      summary_cleared_by_start_or_summarize [of summarized_ex env_ex
        "Response (Some (js '' Halo. ''))" "js ''Halo.''" Summarize Rejected SummaryFailed]
    by auto
qed

text \<open>The claim C8 as it is worded fails: in the stopped session \<open>stopped_ex\<close>, whose
  Summary is stored, a summarize command empties the Summary, and a failed one leaves
  it empty, while the status stays \<open>IDLE\<close>, the session stays inactive and the camera is
  not asked for: no session is started.\<close>

theorem summary_cleared_without_start_counterexample:
  "status stopped_ex = IDLE
   \<and> summary stopped_ex = Some (js ''Halo, selamat.'')
   \<and> summary (step env_ex stopped_ex Summarize) = None
   \<and> summary (run env_ex stopped_ex [Summarize, SummarizeSettled Rejected]) = None
   \<and> status (run env_ex stopped_ex [Summarize, SummarizeSettled Rejected]) = IDLE
   \<and> \<not> isTranslating (run env_ex stopped_ex [Summarize, SummarizeSettled Rejected])
   \<and> translatedPhrases (run env_ex stopped_ex [Summarize, SummarizeSettled Rejected])
       = translatedPhrases stopped_ex"
  by (simp add: stopped_ex_fields run_def handleSummarize_begin_def handleSummarize_settle_def
        summarizeText_def getAI_def truthy_def emit_def env_ex_def js_def Let_def)

section \<open>The period of the capture tick\<close>

lemma step_period:
  assumes "list_all period_ok (effects s)"
  shows "list_all period_ok (effects (step e s ev))"
proof (cases ev)
  case Toggle
  then show ?thesis using assms stop_effects_all[of period_ok s]
    by (simp add: handleToggleTranslation_def startTranslationSession_def emit_def period_ok_def)
next
  case Start
  then show ?thesis using assms by (simp add: startTranslationSession_def emit_def period_ok_def)
next
  case Stop
  then show ?thesis using assms stop_effects_all[of period_ok s]
    by (simp add: period_ok_def)
next
  case (CameraSettled r)
  then show ?thesis using assms
    by (simp add: startTranslationSession_resume_def Let_def split: sum.splits option.splits)
next
  case (CanPlay i)
  then show ?thesis using assms
    by (simp add: oncanplay_handler_def emit_def Let_def period_ok_def split: option.splits)
next
  case (TickFired frame)
  then show ?thesis using assms
    by (simp add: tick_fire_def emit_def Let_def period_ok_def split: sum.splits)
next
  case (TickSettled r)
  then show ?thesis
    using assms stop_effects_all[of period_ok "s\<lparr>error := Some MSG_TRANSLATE\<rparr>"]
    by (simp add: tick_settle_def Let_def period_ok_def split: sum.splits)
next
  case Summarize
  then show ?thesis using assms
    by (simp add: handleSummarize_begin_def emit_def Let_def period_ok_def split: sum.splits)
next
  case (SummarizeSettled r)
  then show ?thesis using assms
    by (simp add: handleSummarize_settle_def Let_def split: sum.splits)
qed

lemma run_period: "list_all period_ok (effects (run e (initial v c) evs))"
proof (induction evs rule: rev_induct)
  case Nil
  show ?case by (simp add: run_Nil initial_def)
next
  case (snoc ev evs)
  then show ?case unfolding run_snoc by (rule step_period)
qed

lemma start_arms_timer:
  assumes "truthy (API_KEY e)" and "videoRef s = Some vid"
  shows "effects (run e s [Start, CameraSettled (Inr stream), CanPlay i])
           = effects s @ [GetUserMedia, VideoPlay, SetInterval 6000]
         \<and> captureInterval (run e s [Start, CameraSettled (Inr stream), CanPlay i]) = Some i"
  using assms
  by (simp add: run_def startTranslationSession_def startTranslationSession_resume_def
        oncanplay_handler_def emit_def Let_def)

text \<open>
  C9. A start that succeeds (a credential is configured, the video element is there,
  the camera gives a stream and the video can play) asks for the camera, plays the
  video and arms the timer with the period 6000 ms, keeping the id \<open>i\<close> it gets. And
  in every run of the component, from any environment, every timer that is armed has
  the period 6000 ms.
\<close>

theorem capture_period_fixed:
  assumes "truthy (API_KEY e)" and "videoRef s = Some vid"
  shows "effects (run e s [Start, CameraSettled (Inr stream), CanPlay i])
           = effects s @ [GetUserMedia, VideoPlay, SetInterval 6000]
         \<and> captureInterval (run e s [Start, CameraSettled (Inr stream), CanPlay i]) = Some i
         \<and> list_all period_ok (effects (run e' (initial v c) evs))"
  using start_arms_timer[OF assms] run_period by simp

theorem capture_period_fixed_witness:
  "truthy (API_KEY env_ex)
   \<and> videoRef mounted = Some \<lparr>srcObject = None, oncanplay = False\<rparr>
   \<and> effects (run env_ex mounted [Start, CameraSettled (Inr [0]), CanPlay 1])
       = [GetUserMedia, VideoPlay, SetInterval 6000]
   \<and> captureInterval (run env_ex mounted [Start, CameraSettled (Inr [0]), CanPlay 1]) = Some 1
   \<and> list_all period_ok (effects capturing_ex)"
proof -
  have h1: "truthy (API_KEY env_ex)"
    by (simp add: env_ex_def truthy_def js_def)
  have h2: "videoRef mounted = Some \<lparr>srcObject = None, oncanplay = False\<rparr>"
    by (simp add: mounted_def initial_def)
  have m: "effects mounted = []"
    by (simp add: mounted_def initial_def)
  show ?thesis
    using h1 h2 m capture_period_fixed [OF h1 h2, of "[0]" 1 env_ex
        "Some \<lparr>srcObject = None, oncanplay = False\<rparr>" "Some \<lparr>context2d = True\<rparr>"
        "[Start, CameraSettled (Inr [0]), CanPlay 1,
          TickFired (js ''f1''), TickSettled (Response (Some (js ''Halo'')))]"]
    by (simp add: capturing_ex_def mounted_def)
qed

section \<open>Stored phrases are trimmed\<close>

lemma trim_well_trimmed:
  assumes ne: "trim t \<noteq> []"
  shows "well_trimmed (trim t)"
proof -
  define u where "u = dropWhile isWhiteSpace t"
  define w where "w = dropWhile isWhiteSpace (rev u)"
  have tw: "trim t = rev w" by (simp add: trim_def u_def w_def)
  with ne have wne: "w \<noteq> []" by simp
  then have une: "u \<noteq> []" by (auto simp: w_def)
  have "\<not> isWhiteSpace (hd w)"
    using wne unfolding w_def by (rule hd_dropWhile)
  then have l: "\<not> isWhiteSpace (last (trim t))"
    using wne by (simp add: tw last_rev)
  have "last w = last (rev u)"
    using wne unfolding w_def by (metis dropWhile_eq_Nil_conv dropWhile_last)
  then have "hd (trim t) = hd u"
    using une by (simp add: tw hd_rev last_rev)
  moreover have "\<not> isWhiteSpace (hd u)"
    using une unfolding u_def by (rule hd_dropWhile)
  ultimately show ?thesis using ne l by (simp add: well_trimmed_def)
qed

lemma trim_all_white:
  assumes "list_all isWhiteSpace t"
  shows "trim t = []"
proof -
  from assms have d: "dropWhile isWhiteSpace t = []" by (simp add: list_all_iff)
  show ?thesis unfolding trim_def d by simp
qed

lemma appendPhrase_trimmed:
  "list_all well_trimmed prev \<Longrightarrow> well_trimmed r \<Longrightarrow> list_all well_trimmed (appendPhrase lower prev r)"
  by (simp add: appendPhrase_def)

lemma translate_trimmed:
  "translateImageToText e r = Inr x \<Longrightarrow> x \<noteq> [] \<Longrightarrow> well_trimmed x"
  by (auto simp add: translateImageToText_def trim_well_trimmed split: sum.splits gen_response.splits)

lemma step_trimmed:
  assumes "list_all well_trimmed (translatedPhrases s)"
  shows "list_all well_trimmed (translatedPhrases (step e s ev))"
proof (cases ev)
  case Toggle
  then show ?thesis using assms
    by (simp add: handleToggleTranslation_def startTranslationSession_def emit_def)
next
  case Start
  then show ?thesis using assms by (simp add: startTranslationSession_def emit_def)
next
  case Stop
  then show ?thesis using assms by simp
next
  case (CameraSettled r)
  then show ?thesis using assms
    by (simp add: startTranslationSession_resume_def Let_def split: sum.splits option.splits)
next
  case (CanPlay i)
  then show ?thesis using assms
    by (simp add: oncanplay_handler_def emit_def Let_def split: option.splits)
next
  case (TickFired frame)
  then show ?thesis using assms by simp
next
  case (TickSettled r)
  show ?thesis
  proof (cases "translateImageToText e r")
    case (Inl err)
    with TickSettled assms show ?thesis by (simp add: tick_settle_def Let_def)
  next
    case (Inr x)
    with TickSettled assms translate_trimmed[OF Inr] show ?thesis
      by (simp add: tick_settle_def Let_def appendPhrase_trimmed)
  qed
next
  case Summarize
  then show ?thesis using assms
    by (simp add: handleSummarize_begin_def emit_def Let_def split: sum.splits)
next
  case (SummarizeSettled r)
  then show ?thesis using assms
    by (simp add: handleSummarize_settle_def Let_def split: sum.splits)
qed

lemma run_trimmed: "list_all well_trimmed (translatedPhrases (run e (initial v c) evs))"
proof (induction evs rule: rev_induct)
  case Nil
  show ?case by (simp add: run_Nil initial_def)
next
  case (snoc ev evs)
  then show ?case unfolding run_snoc by (rule step_trimmed)
qed

lemma tick_white_ignored:
  assumes "list_all isWhiteSpace t"
  shows "translatedPhrases (tick e s frame (Response (Some t))) = translatedPhrases s"
  using assms
  by (simp add: tick_def tick_with_def tick_settle_def translateImageToText_def trim_all_white
        Let_def split: sum.splits)

lemma tick_missing_ignored:
  "translatedPhrases (tick e s frame (Response None)) = translatedPhrases s"
  by (simp add: tick_def tick_with_def tick_settle_def translateImageToText_def trim_def Let_def
        split: sum.splits)

text \<open>
  C10. In every run of the component, every stored phrase is non-empty and neither
  starts nor ends with white space. A tick whose gateway response is white space only
  (\<open>t\<close>), or has no text at all, leaves the phrase sequence as it was.
\<close>

theorem stored_phrases_trimmed:
  "list_all well_trimmed (translatedPhrases (run e (initial v c) evs))
   \<and> (list_all isWhiteSpace t \<longrightarrow>
        translatedPhrases (tick e s frame (Response (Some t))) = translatedPhrases s)
   \<and> translatedPhrases (tick e s frame (Response None)) = translatedPhrases s"
  by (simp add: run_trimmed tick_white_ignored tick_missing_ignored)

theorem stored_phrases_trimmed_witness:
  "translatedPhrases
     (run env_ex mounted
        [Start, CameraSettled (Inr [0]), CanPlay 1,
         TickFired (js ''f1''), TickSettled (Response (Some (js ''  Halo ''))),
         TickFired (js ''f2''), TickSettled (Response (Some (js ''   '')))])
     = [js ''Halo'']
   \<and> list_all well_trimmed
       (translatedPhrases
          (run env_ex mounted
             [Start, CameraSettled (Inr [0]), CanPlay 1,
              TickFired (js ''f1''), TickSettled (Response (Some (js ''  Halo ''))),
              TickFired (js ''f2''), TickSettled (Response (Some (js ''   '')))]))
   \<and> list_all isWhiteSpace (js ''   '')
   \<and> translatedPhrases (tick env_ex capturing_ex (js ''f2'') (Response (Some (js ''   ''))))
       = translatedPhrases capturing_ex"
proof -
  have h: "list_all isWhiteSpace (js ''   '')"
    by (simp add: str_defs)
  have v: "translatedPhrases
     (run env_ex mounted
        [Start, CameraSettled (Inr [0]), CanPlay 1,
         TickFired (js ''f1''), TickSettled (Response (Some (js ''  Halo ''))),
         TickFired (js ''f2''), TickSettled (Response (Some (js ''   '')))])
     = [js ''Halo'']"
    by (simp add: ex_defs op_defs str_defs)
  show ?thesis
    using h v stored_phrases_trimmed [of env_ex
        "Some \<lparr>srcObject = None, oncanplay = False\<rparr>" "Some \<lparr>context2d = True\<rparr>"
        "[Start, CameraSettled (Inr [0]), CanPlay 1,
          TickFired (js ''f1''), TickSettled (Response (Some (js ''  Halo ''))),
          TickFired (js ''f2''), TickSettled (Response (Some (js ''   '')))]"
        "js ''   ''" capturing_ex "js ''f2''"]
    by (simp add: mounted_def)
qed

end
